theory Spec2Isabelle
  imports Main
begin

section \<open>JavaScript values, the heap and weak references\<close>

text \<open>
  The caches of \<^verbatim>\<open>packages/cache/src/cache.ts\<close> and of
  \<^verbatim>\<open>packages/codegen/__tests__/go.test.ts\<close> store JavaScript objects. An object
  has an identity (its address) and a content. The content is modelled as a finite tree of
  JavaScript values: nested objects and arrays are held by value, so the model covers
  entities without sharing and without cycles, and integers stand for the finite numbers.
  \<open>JNaN\<close> stands for the non-finite numbers. \<open>JFun f\<close> is a function; the one
  place where a function is called here is \<^verbatim>\<open>JSON.stringify\<close>, which calls the \<^verbatim>\<open>toJSON\<close>
  method of an object, and \<open>f\<close> is what the function does then: \<open>Some v\<close>, it returns
  \<open>v\<close>; \<open>None\<close>, it throws. The properties of \<open>JObj\<close> are the own enumerable
  properties in property order, each key once; arrays and functions have no further
  property. A heap cell holds an object: \<open>JObj\<close>, \<open>JArr\<close> or \<open>JFun\<close>.
\<close>

datatype jsval =
    JUndefined
  | JNull
  | JBool bool
  | JNum int
  | JNaN
  | JStr string
  | JFun "jsval option"
  | JArr "jsval list"
  | JObj "(string \<times> jsval) list"

type_synonym addr = nat

text \<open>
  The heap is the list of all objects ever allocated, indexed by address. A cell is
  \<open>None\<close> once the garbage collector has reclaimed the object; addresses are never
  reused, so a weak reference to a reclaimed object stays dead.
\<close>

type_synonym heap = "jsval option list"

definition content :: "heap \<Rightarrow> addr \<Rightarrow> jsval option" where
  "content h a = (if a < length h then h ! a else None)"

definition live :: "heap \<Rightarrow> addr \<Rightarrow> bool" where
  "live h a = (content h a \<noteq> None)"

definition alloc :: "heap \<Rightarrow> jsval \<Rightarrow> addr \<times> heap" where
  "alloc h v = (length h, h @ [Some v])"

text \<open>Assignment to the fields of a live object the caller holds: its content changes,
  its identity does not.\<close>

definition mutate :: "heap \<Rightarrow> addr \<Rightarrow> jsval \<Rightarrow> heap" where
  "mutate h a v = (if live h a then h[a := Some v] else h)"

text \<open>The collector reclaiming an object.\<close>

definition reclaim :: "heap \<Rightarrow> addr \<Rightarrow> heap" where
  "reclaim h a = (if a < length h then h[a := None] else h)"

datatype weakref = WeakRef addr

text \<open>\<^verbatim>\<open>WeakRef.prototype.deref\<close>: the target, or undefined (\<open>None\<close>) once it is
  reclaimed.\<close>

fun deref :: "heap \<Rightarrow> weakref \<Rightarrow> addr option" where
  "deref h (WeakRef a) = (if live h a then Some a else None)"

section \<open>The built-in Map\<close>

text \<open>
  A JavaScript \<^verbatim>\<open>Map\<close> iterates in insertion order. \<^verbatim>\<open>set\<close> on a key that is
  present replaces the value and leaves the key where it is; on a new key it appends.
\<close>

fun Map_get :: "('k \<times> 'v) list \<Rightarrow> 'k \<Rightarrow> 'v option" where
  "Map_get [] k = None"
| "Map_get ((k', v) # m) k = (if k' = k then Some v else Map_get m k)"

fun Map_set :: "'k \<Rightarrow> 'v \<Rightarrow> ('k \<times> 'v) list \<Rightarrow> ('k \<times> 'v) list" where
  "Map_set k v [] = [(k, v)]"
| "Map_set k v ((k', v') # m) =
     (if k' = k then (k, v) # m else (k', v') # Map_set k v m)"

section \<open>JSON.stringify, JSON.parse and structuredClone\<close>

text \<open>
  \<^verbatim>\<open>structuredClone\<close> of cache.ts is \<^verbatim>\<open>JSON.parse(JSON.stringify(x))\<close>. The JSON
  text is modelled by the document it denotes. \<^verbatim>\<open>JSON.stringify\<close> follows the language
  standard: \<^verbatim>\<open>SerializeJSONProperty\<close> first calls a callable \<^verbatim>\<open>toJSON\<close> of an object and
  goes on with what it returns (an exception of \<^verbatim>\<open>toJSON\<close> is one of \<^verbatim>\<open>JSON.stringify\<close>);
  undefined and a function give no text (undefined); inside an array these become
  \<^verbatim>\<open>null\<close>, inside an object the property is left out; a non-finite number becomes
  \<^verbatim>\<open>null\<close>. The values of the model hold no BigInt and no cycle, so nothing else
  throws. A \<^verbatim>\<open>toJSON\<close> is taken to return a value and to change nothing.
\<close>

datatype json =
    Jnull
  | Jbool bool
  | Jnum int
  | Jstr string
  | Jarr "json list"
  | Jobj "(string \<times> json) list"

text \<open>What \<^verbatim>\<open>JSON.stringify\<close> does: it throws, it returns undefined, or it returns a text.\<close>

datatype stringified = Throws | NoText | Text json

fun SerializeJSONProperty :: "jsval \<Rightarrow> stringified"
  and serialize_value :: "jsval \<Rightarrow> stringified"
  and call_toJSON :: "(string \<times> jsval) list \<Rightarrow> stringified option"
  and SerializeJSONArray :: "jsval list \<Rightarrow> json list option"
  and SerializeJSONObject :: "(string \<times> jsval) list \<Rightarrow> (string \<times> json) list option" where
  "SerializeJSONProperty (JObj ps) =
     (case call_toJSON ps of Some result \<Rightarrow> result | None \<Rightarrow> serialize_value (JObj ps))"
| "SerializeJSONProperty v = serialize_value v"
| "call_toJSON [] = None"
| "call_toJSON ((k, v) # ps) =
     (if k = ''toJSON''
      then (case v of
              JFun None \<Rightarrow> Some Throws
            | JFun (Some returned) \<Rightarrow> Some (serialize_value returned)
            | _ \<Rightarrow> None)
      else call_toJSON ps)"
| "serialize_value JUndefined = NoText"
| "serialize_value (JFun f) = NoText"
| "serialize_value JNull = Text Jnull"
| "serialize_value (JBool b) = Text (Jbool b)"
| "serialize_value (JNum n) = Text (Jnum n)"
| "serialize_value JNaN = Text Jnull"
| "serialize_value (JStr s) = Text (Jstr s)"
| "serialize_value (JArr vs) =
     (case SerializeJSONArray vs of None \<Rightarrow> Throws | Some js \<Rightarrow> Text (Jarr js))"
| "serialize_value (JObj ps) =
     (case SerializeJSONObject ps of None \<Rightarrow> Throws | Some js \<Rightarrow> Text (Jobj js))"
| "SerializeJSONArray [] = Some []"
| "SerializeJSONArray (v # vs) =
     (case SerializeJSONProperty v of
        Throws \<Rightarrow> None
      | NoText \<Rightarrow> map_option ((#) Jnull) (SerializeJSONArray vs)
      | Text j \<Rightarrow> map_option ((#) j) (SerializeJSONArray vs))"
| "SerializeJSONObject [] = Some []"
| "SerializeJSONObject ((k, v) # ps) =
     (case SerializeJSONProperty v of
        Throws \<Rightarrow> None
      | NoText \<Rightarrow> SerializeJSONObject ps
      | Text j \<Rightarrow> map_option ((#) (k, j)) (SerializeJSONObject ps))"

text \<open>\<open>call_toJSON\<close> is \<open>None\<close> when the object has no callable \<^verbatim>\<open>toJSON\<close>;
  what \<^verbatim>\<open>toJSON\<close> returns is serialised without a second call of a \<^verbatim>\<open>toJSON\<close> of its own.\<close>

definition JSON_stringify :: "jsval \<Rightarrow> stringified" where
  "JSON_stringify v = SerializeJSONProperty v"

fun JSON_parse :: "json \<Rightarrow> jsval"
  and parse_elements :: "json list \<Rightarrow> jsval list"
  and parse_properties :: "(string \<times> json) list \<Rightarrow> (string \<times> jsval) list" where
  "JSON_parse Jnull = JNull"
| "JSON_parse (Jbool b) = JBool b"
| "JSON_parse (Jnum n) = JNum n"
| "JSON_parse (Jstr s) = JStr s"
| "JSON_parse (Jarr js) = JArr (parse_elements js)"
| "JSON_parse (Jobj ps) = JObj (parse_properties ps)"
| "parse_elements [] = []"
| "parse_elements (j # js) = JSON_parse j # parse_elements js"
| "parse_properties [] = []"
| "parse_properties ((k, j) # ps) = (k, JSON_parse j) # parse_properties ps"

text \<open>The error that \<^verbatim>\<open>structuredClone\<close> throws (``The cache value is not structured
  clonable use `save` with serializer'').\<close>

datatype error = NotStructuredCloneable

text \<open>What a reference denotes: undefined when it is \<open>None\<close>, else the content of the
  object. \<^verbatim>\<open>JSON.parse(undefined)\<close> parses the text \<^verbatim>\<open>"undefined"\<close> and throws a
  SyntaxError; \<^verbatim>\<open>structuredClone\<close> catches it, and what \<^verbatim>\<open>JSON.stringify\<close> throws, and
  throws its own error. The clone is a new cell that holds the parsed value (a primitive
  when a \<^verbatim>\<open>toJSON\<close> returned one).\<close>

definition js_value :: "heap \<Rightarrow> addr option \<Rightarrow> jsval" where
  "js_value h x =
     (case x of None \<Rightarrow> JUndefined
      | Some a \<Rightarrow> (case content h a of None \<Rightarrow> JUndefined | Some v \<Rightarrow> v))"

definition structuredClone :: "heap \<Rightarrow> addr option \<Rightarrow> error + (addr \<times> heap)" where
  "structuredClone h x =
     (case JSON_stringify (js_value h x) of
        Throws \<Rightarrow> Inl NotStructuredCloneable
      | NoText \<Rightarrow> Inl NotStructuredCloneable
      | Text text \<Rightarrow> Inr (alloc h (JSON_parse text)))"

section \<open>The cache of cache.ts\<close>

record CacheEntryState =
  retained_lru :: bool
  retained_ttl :: int
  lastAccessed :: int

text \<open>A cache entry is the tuple \<^verbatim>\<open>[key, value, state?]\<close>; the value is a reference
  to an object.\<close>

type_synonym 'k CacheEntry = "'k \<times> addr \<times> CacheEntryState option"

text \<open>What iteration yields: the value is what \<^verbatim>\<open>deref\<close> returned, so it may
  be undefined (\<open>None\<close>).\<close>

type_synonym 'k yielded = "'k \<times> addr option \<times> CacheEntryState option"

text \<open>The two private fields of \<^verbatim>\<open>CacheImpl\<close>.\<close>

record 'k CacheImpl =
  weakCache :: "('k \<times> weakref) list"
  lru :: "('k \<times> addr) list"

definition buildCache :: "'k CacheImpl" where
  "buildCache = \<lparr>weakCache = [], lru = []\<rparr>"

text \<open>\<^verbatim>\<open>get\<close>: \<^verbatim>\<open>let ref = this.#weakCache.get(cacheKey); return ref?.deref();\<close>
  Neither call throws. The result type has an error branch all the same, so that ``never
  throws'' is a statement about \<open>get\<close>.\<close>

definition get :: "'k CacheImpl \<Rightarrow> heap \<Rightarrow> 'k \<Rightarrow> error + addr option" where
  "get c h cacheKey =
     (let ref = Map_get (weakCache c) cacheKey
      in Inr (case ref of None \<Rightarrow> None | Some r \<Rightarrow> deref h r))"

text \<open>\<^verbatim>\<open>load\<close>: the call to \<^verbatim>\<open>structuredClone\<close> is commented out in the source and
  \<^verbatim>\<open>clone\<close> is the value itself; the state of the entry is not read. The values are
  objects, as the type of the parameter says, so \<^verbatim>\<open>new WeakRef\<close> does not throw.\<close>

fun load :: "'k CacheImpl \<Rightarrow> 'k CacheEntry list \<Rightarrow> 'k CacheImpl" where
  "load c [] = c"
| "load c ((key, value, state) # entries) =
     (let clone = value
      in load (c\<lparr>weakCache := Map_set key (WeakRef clone) (weakCache c),
                 lru := Map_set key value (lru c)\<rparr>) entries)"

text \<open>The async iterator: one tuple for each key of \<^verbatim>\<open>#weakCache\<close>, in the map's order.\<close>

definition asyncIterator :: "'k CacheImpl \<Rightarrow> heap \<Rightarrow> 'k yielded list" where
  "asyncIterator c h =
     map (\<lambda>(key, _).
            let ref = (case Map_get (weakCache c) key of None \<Rightarrow> None | Some r \<Rightarrow> deref h r);
                state = None
            in (key, ref, state))
         (weakCache c)"

definition entries :: "'k CacheImpl \<Rightarrow> heap \<Rightarrow> 'k yielded list" where
  "entries c h = asyncIterator c h"



text \<open>\<^verbatim>\<open>save\<close>: clone every tuple that \<^verbatim>\<open>entries()\<close> yields and push it; the first
  error leaves the loop.\<close>

fun save_loop ::
  "heap \<Rightarrow> 'k yielded list \<Rightarrow> 'k CacheEntry list \<Rightarrow> error + ('k CacheEntry list \<times> heap)" where
  "save_loop h [] arrayOfCacheEntryTuples = Inr (arrayOfCacheEntryTuples, h)"
| "save_loop h ((key, value, state) # rest) arrayOfCacheEntryTuples =
     (case structuredClone h value of
        Inl e \<Rightarrow> Inl e
      | Inr (structuredClonedValue, h') \<Rightarrow>
          save_loop h' rest (arrayOfCacheEntryTuples @ [(key, structuredClonedValue, state)]))"

definition save :: "'k CacheImpl \<Rightarrow> heap \<Rightarrow> error + ('k CacheEntry list \<times> heap)" where
  "save c h = save_loop h (entries c h) []"

section \<open>The later cache of go.test.ts\<close>

text \<open>
  \<^verbatim>\<open>packages/codegen/__tests__/go.test.ts\<close> holds, after its test, a later \<^verbatim>\<open>CacheImpl\<close>:
  the one with a bounded \<^verbatim>\<open>LruCacheImpl\<close>, revisions and transactions
  (\<^verbatim>\<open>beginTransaction\<close>, \<^verbatim>\<open>LiveCacheTransactionImpl\<close>, \<^verbatim>\<open>commitTransaction\<close>). Members
  that cache.ts also has are named here with the prefix \<open>tx_\<close>, those of the live
  transaction with \<open>live_\<close>. The hooks of the cache options are functions of the caller
  and are not modelled; \<^verbatim>\<open>structuredClone\<close> is the same helper as in cache.ts.
\<close>

datatype error' = NotStructuredCloneable' | RefIsUndefined | WeakRefTargetNotAnObject

text \<open>\<^verbatim>\<open>new WeakRef(target)\<close> throws a TypeError when the target is not an object.\<close>

fun is_object :: "jsval \<Rightarrow> bool" where
  "is_object (JObj ps) = True"
| "is_object (JArr vs) = True"
| "is_object (JFun f) = True"
| "is_object v = False"

text \<open>\<^verbatim>\<open>Map.prototype.delete\<close> and \<^verbatim>\<open>has\<close>.\<close>

fun Map_delete :: "'k \<Rightarrow> ('k \<times> 'v) list \<Rightarrow> ('k \<times> 'v) list" where
  "Map_delete k [] = []"
| "Map_delete k ((k', v) # m) = (if k' = k then m else (k', v) # Map_delete k m)"

definition Map_has :: "('k \<times> 'v) list \<Rightarrow> 'k \<Rightarrow> bool" where
  "Map_has m k = (Map_get m k \<noteq> None)"

text \<open>\<^verbatim>\<open>{ ...value }\<close>: a new plain object with the own enumerable properties of the
  value. An array gives its elements under their indices in decimal, a string its
  characters, a function and every other primitive give no property.\<close>

fun digits :: "nat \<Rightarrow> string" where
  "digits n = (if n < 10 then [char_of (48 + n)] else digits (n div 10) @ [char_of (48 + n mod 10)])"


fun spread :: "jsval \<Rightarrow> jsval" where
  "spread (JObj ps) = JObj ps"
| "spread (JArr vs) = JObj (zip (map digits [0..<length vs]) vs)"
| "spread (JStr s) = JObj (zip (map digits [0..<length s]) (map (\<lambda>c. JStr [c]) s))"
| "spread v = JObj []"


text \<open>\<^verbatim>\<open>LruCacheImpl\<close>: \<^verbatim>\<open>set\<close> deletes a key that is present; else, when the size equals
  \<^verbatim>\<open>#max\<close>, it deletes the first key of the map (\<^verbatim>\<open>delete(undefined)\<close> on an empty map
  does nothing); then it sets the key.\<close>

record 'k LruCacheImpl =
  lru_max :: int
  lruCache :: "('k \<times> addr) list"

definition LruCacheImpl_set :: "'k \<Rightarrow> addr \<Rightarrow> 'k LruCacheImpl \<Rightarrow> 'k LruCacheImpl" where
  "LruCacheImpl_set cacheKey value l =
     (let m = lruCache l;
          m' = (if Map_has m cacheKey then Map_delete cacheKey m
                else if int (length m) = lru_max l
                     then (case m of [] \<Rightarrow> m | (lruEntryKey, _) # _ \<Rightarrow> Map_delete lruEntryKey m)
                     else m)
      in l\<lparr>lruCache := Map_set cacheKey value m'\<rparr>)"


text \<open>The entry state of this cache; \<^verbatim>\<open>DEFAULT_ENTRY_STATE\<close> has no \<^verbatim>\<open>lastAccessed\<close>.\<close>

record EntryState =
  state_retained_lru :: bool
  state_retained_ttl :: int
  state_lastAccessed :: "int option"

record CachedEntityRevision =
  entity :: addr
  revision :: int

type_synonym 'k TxEntry = "'k \<times> addr \<times> EntryState option"

definition DEFAULT_EXPIRATION_lru :: int where
  "DEFAULT_EXPIRATION_lru = 10000"

definition DEFAULT_EXPIRATION_ttl :: int where
  "DEFAULT_EXPIRATION_ttl = 60000"

definition DEFAULT_ENTRY_STATE :: EntryState where
  "DEFAULT_ENTRY_STATE =
     \<lparr>state_retained_lru = False, state_retained_ttl = DEFAULT_EXPIRATION_ttl,
      state_lastAccessed = None\<rparr>"

text \<open>The fields of the later \<^verbatim>\<open>CacheImpl\<close>; of \<^verbatim>\<open>#cacheOptions\<close> it keeps the two
  numbers of \<^verbatim>\<open>expiration\<close>. A configured number counts when it is truthy, that is not 0.\<close>

record 'k TxCacheImpl =
  tx_weakCache :: "('k \<times> weakref) list"
  tx_entryRevisions :: "('k \<times> CachedEntityRevision list) list"
  tx_cacheEntryState :: "('k \<times> EntryState option) list"
  tx_lruCache :: "'k LruCacheImpl"
  tx_lruPolicy :: int
  tx_expiration_lru :: "int option"
  tx_expiration_ttl :: "int option"

definition policy :: "int \<Rightarrow> int option \<Rightarrow> int" where
  "policy dflt configured =
     (case configured of None \<Rightarrow> dflt | Some n \<Rightarrow> if n \<noteq> 0 then n else dflt)"

definition tx_buildCache :: "int option \<Rightarrow> int option \<Rightarrow> 'k TxCacheImpl" where
  "tx_buildCache expiration_lru expiration_ttl =
     (let lruPolicy = policy DEFAULT_EXPIRATION_lru expiration_lru
      in \<lparr>tx_weakCache = [], tx_entryRevisions = [], tx_cacheEntryState = [],
          tx_lruCache = \<lparr>lru_max = lruPolicy, lruCache = []\<rparr>,
          tx_lruPolicy = lruPolicy,
          tx_expiration_lru = expiration_lru, tx_expiration_ttl = expiration_ttl\<rparr>)"

definition tx_get :: "'k TxCacheImpl \<Rightarrow> heap \<Rightarrow> 'k \<Rightarrow> addr option" where
  "tx_get c h cacheKey =
     (case Map_get (tx_weakCache c) cacheKey of None \<Rightarrow> None | Some r \<Rightarrow> deref h r)"

text \<open>The async iterator of the later cache: it throws ``ref is undefined'' at the first key
  whose referent is reclaimed. The result is what it yields before that, and the error.\<close>

fun tx_iterate ::
  "'k TxCacheImpl \<Rightarrow> heap \<Rightarrow> ('k \<times> weakref) list \<Rightarrow> 'k TxEntry list \<times> error' option" where
  "tx_iterate c h [] = ([], None)"
| "tx_iterate c h ((key, _) # rest) =
     (case (case Map_get (tx_weakCache c) key of None \<Rightarrow> None | Some r \<Rightarrow> deref h r) of
        None \<Rightarrow> ([], Some RefIsUndefined)
      | Some valueRef \<Rightarrow>
          (let state = (case Map_get (tx_cacheEntryState c) key of
                          Some (Some st) \<Rightarrow> st | _ \<Rightarrow> DEFAULT_ENTRY_STATE);
               (yielded, e) = tx_iterate c h rest
           in ((key, valueRef, Some state) # yielded, e)))"

definition tx_entries :: "'k TxCacheImpl \<Rightarrow> heap \<Rightarrow> 'k TxEntry list \<times> error' option" where
  "tx_entries c h = tx_iterate c h (tx_weakCache c)"

definition tx_entryRevisionsOf :: "'k TxCacheImpl \<Rightarrow> 'k \<Rightarrow> CachedEntityRevision list" where
  "tx_entryRevisionsOf c cacheKey =
     (case Map_get (tx_entryRevisions c) cacheKey of None \<Rightarrow> [] | Some revisions \<Rightarrow> revisions)"

text \<open>\<^verbatim>\<open>clear\<close>: delete every key that \<^verbatim>\<open>entries()\<close> yields from the weak map, the LRU map
  and the revisions (the entry states are left).\<close>

definition tx_clear :: "'k TxCacheImpl \<Rightarrow> heap \<Rightarrow> 'k TxCacheImpl \<times> error' option" where
  "tx_clear c h =
     (let (yielded, e) = tx_entries c h
      in (fold (\<lambda>(key, _, _) c.
                  c\<lparr>tx_weakCache := Map_delete key (tx_weakCache c),
                    tx_lruCache := (tx_lruCache c)\<lparr>lruCache := Map_delete key (lruCache (tx_lruCache c))\<rparr>,
                    tx_entryRevisions := Map_delete key (tx_entryRevisions c)\<rparr>)
               yielded c, e))"

definition tx_structuredClone :: "heap \<Rightarrow> addr option \<Rightarrow> error' + (addr \<times> heap)" where
  "tx_structuredClone h x =
     (case JSON_stringify (js_value h x) of
        Throws \<Rightarrow> Inl NotStructuredCloneable'
      | NoText \<Rightarrow> Inl NotStructuredCloneable'
      | Text text \<Rightarrow> Inr (alloc h (JSON_parse text)))"

text \<open>\<^verbatim>\<open>load\<close> of the later cache clones the value, installs the clone and appends a revision
  that holds the value; an entry that cannot be cloned ends the loop with the error, and
  what the entries before it did stays. So does an entry whose clone is a primitive (a
  \<^verbatim>\<open>toJSON\<close> returned one): \<^verbatim>\<open>new WeakRef(clone)\<close> throws.\<close>

fun tx_load_loop ::
  "'k TxCacheImpl \<Rightarrow> heap \<Rightarrow> int \<Rightarrow> 'k TxEntry list \<Rightarrow> 'k TxCacheImpl \<times> heap \<times> error' option" where
  "tx_load_loop c h revisionCounter [] = (c, h, None)"
| "tx_load_loop c h revisionCounter ((key, value, state) # rest) =
     (case tx_structuredClone h (Some value) of
        Inl e \<Rightarrow> (c, h, Some e)
      | Inr (clone, h') \<Rightarrow>
          (if \<not> is_object (js_value h' (Some clone)) then (c, h', Some WeakRefTargetNotAnObject)
           else
             (let entityRevision = \<lparr>entity = value, revision = revisionCounter + 1\<rparr>;
                  revisions = (case Map_get (tx_entryRevisions c) key of
                                 Some rs \<Rightarrow> rs @ [entityRevision]
                               | None \<Rightarrow> [entityRevision])
              in tx_load_loop
                   (c\<lparr>tx_weakCache := Map_set key (WeakRef clone) (tx_weakCache c),
                      tx_lruCache := LruCacheImpl_set key clone (tx_lruCache c),
                      tx_cacheEntryState := Map_set key state (tx_cacheEntryState c),
                      tx_entryRevisions := Map_set key revisions (tx_entryRevisions c)\<rparr>)
                   h' (revisionCounter + 1) rest)))"

definition tx_load ::
  "'k TxCacheImpl \<Rightarrow> heap \<Rightarrow> 'k TxEntry list \<Rightarrow> 'k TxCacheImpl \<times> heap \<times> error' option" where
  "tx_load c h es = tx_load_loop c h 0 es"

text \<open>\<^verbatim>\<open>save\<close> of the later cache: clone every tuple that \<^verbatim>\<open>entries()\<close> yields and push it.
  The iterator and the loop body alternate, so an error of a clone comes before the error
  of the iterator at a later key.\<close>

fun tx_save_loop ::
  "heap \<Rightarrow> 'k TxEntry list \<Rightarrow> 'k TxEntry list \<Rightarrow> error' + ('k TxEntry list \<times> heap)" where
  "tx_save_loop h [] arrayOfCacheEntryTuples = Inr (arrayOfCacheEntryTuples, h)"
| "tx_save_loop h ((key, value, state) # rest) arrayOfCacheEntryTuples =
     (case tx_structuredClone h (Some value) of
        Inl e \<Rightarrow> Inl e
      | Inr (structuredClonedValue, h') \<Rightarrow>
          tx_save_loop h' rest (arrayOfCacheEntryTuples @ [(key, structuredClonedValue, state)]))"

definition tx_save :: "'k TxCacheImpl \<Rightarrow> heap \<Rightarrow> error' + ('k TxEntry list \<times> heap)" where
  "tx_save c h =
     (let (yielded, e) = tx_entries c h
      in case tx_save_loop h yielded [] of
           Inl err \<Rightarrow> Inl err
         | Inr (arrayOfCacheEntryTuples, h') \<Rightarrow>
             (case e of Some err \<Rightarrow> Inl err | None \<Rightarrow> Inr (arrayOfCacheEntryTuples, h')))"

text \<open>\<^verbatim>\<open>commitTransaction\<close>: the one place where a commit writes to the primary store. It
  sorts the entries with a comparator that never returns 0, so the order is the engine's:
  the sorting function is a parameter.\<close>

fun commit_entries :: "'k TxCacheImpl \<Rightarrow> 'k TxEntry list \<Rightarrow> 'k TxCacheImpl" where
  "commit_entries c [] = c"
| "commit_entries c ((key, value, state) # rest) =
     (let c1 = c\<lparr>tx_weakCache := Map_set key (WeakRef value) (tx_weakCache c),
                 tx_cacheEntryState := Map_set key state (tx_cacheEntryState c)\<rparr>;
          c2 = (if (case state of None \<Rightarrow> False | Some st \<Rightarrow> state_retained_lru st)
                then c1\<lparr>tx_lruCache := LruCacheImpl_set key value (tx_lruCache c1)\<rparr>
                else c1)
      in commit_entries c2 rest)"

fun commit_revisions ::
  "'k TxCacheImpl \<Rightarrow> ('k \<times> CachedEntityRevision list) list \<Rightarrow> 'k TxCacheImpl" where
  "commit_revisions c [] = c"
| "commit_revisions c ((cacheKey, revision_list) # rest) =
     (let revisions = (case Map_get (tx_entryRevisions c) cacheKey of
                         Some rs \<Rightarrow> rs @ revision_list
                       | None \<Rightarrow> revision_list)
      in commit_revisions
           (c\<lparr>tx_entryRevisions := Map_set cacheKey revisions (tx_entryRevisions c)\<rparr>) rest)"

definition commitTransaction ::
  "('k TxEntry list \<Rightarrow> 'k TxEntry list) \<Rightarrow> 'k TxCacheImpl \<Rightarrow> 'k TxEntry list \<Rightarrow>
   ('k \<times> CachedEntityRevision list) list \<Rightarrow> 'k TxCacheImpl" where
  "commitTransaction sort_impl c es entryRevisions =
     (let sortEntries = sort_impl es
      in commit_revisions (commit_entries c sortEntries) entryRevisions)"

text \<open>The fields of \<^verbatim>\<open>LiveCacheTransactionImpl\<close> (the reference to the original cache
  apart; of the committing transaction, its map of merged revisions), and
  \<^verbatim>\<open>beginLiveTransaction\<close>: for each entry that the original cache yields, a
  shallow copy is put into the transactional cache, and the revisions of the key are
  seeded. When the iteration throws, no transaction is made.\<close>

record 'k LiveCacheTransactionImpl =
  transactionalCache :: "('k \<times> addr) list"
  localUpdatedEntries :: "('k \<times> addr) list"
  live_cacheEntryState :: "('k \<times> EntryState) list"
  live_ttlPolicy :: int
  live_lruPolicy :: int
  localRevisions :: "('k \<times> CachedEntityRevision list) list"
  live_entryRevisions :: "('k \<times> CachedEntityRevision list) list"
  commitingTransaction_mergedRevisions :: "('k \<times> CachedEntityRevision list) list"

definition spread_object :: "heap \<Rightarrow> addr \<Rightarrow> jsval" where
  "spread_object h a = (case content h a of None \<Rightarrow> JObj [] | Some v \<Rightarrow> spread v)"

fun begin_loop ::
  "'k TxCacheImpl \<Rightarrow> heap \<Rightarrow> 'k TxEntry list \<Rightarrow> ('k \<times> addr) list \<Rightarrow>
   ('k \<times> CachedEntityRevision list) list \<Rightarrow>
   ('k \<times> addr) list \<times> ('k \<times> CachedEntityRevision list) list \<times> heap" where
  "begin_loop originalCache h [] txCache txRevisions = (txCache, txRevisions, h)"
| "begin_loop originalCache h ((key, value, state) # rest) txCache txRevisions =
     (let (copy, h') = alloc h (spread_object h value)
      in begin_loop originalCache h' rest
           (Map_set key copy txCache)
           (fold (\<lambda>entryRevision er. Map_set key [entryRevision] er)
                 (tx_entryRevisionsOf originalCache key) txRevisions))"

definition beginLiveTransaction ::
  "'k TxCacheImpl \<Rightarrow> heap \<Rightarrow> (error' + 'k LiveCacheTransactionImpl) \<times> heap" where
  "beginLiveTransaction originalCache h =
     (let (yielded, e) = tx_entries originalCache h;
          (txCache, txRevisions, h') = begin_loop originalCache h yielded [] []
      in case e of
           Some err \<Rightarrow> (Inl err, h')
         | None \<Rightarrow>
             (Inr \<lparr>transactionalCache = txCache,
                   localUpdatedEntries = [],
                   live_cacheEntryState = [],
                   live_ttlPolicy = policy DEFAULT_EXPIRATION_ttl (tx_expiration_ttl originalCache),
                   live_lruPolicy = policy DEFAULT_EXPIRATION_lru (tx_expiration_lru originalCache),
                   localRevisions = [],
                   live_entryRevisions = txRevisions,
                   commitingTransaction_mergedRevisions = []\<rparr>, h'))"

text \<open>\<^verbatim>\<open>CacheImpl.beginTransaction\<close> of the later cache.\<close>

definition beginTransaction ::
  "'k TxCacheImpl \<Rightarrow> heap \<Rightarrow> (error' + 'k LiveCacheTransactionImpl) \<times> heap" where
  "beginTransaction c h = beginLiveTransaction c h"

text \<open>\<^verbatim>\<open>LiveCacheTransactionImpl.get\<close>: the value of the transactional cache; on a hit the
  entry state of the key is stamped with \<^verbatim>\<open>Date.now()\<close>, a parameter here.\<close>

definition live_get ::
  "'k LiveCacheTransactionImpl \<Rightarrow> int \<Rightarrow> 'k \<Rightarrow> addr option \<times> 'k LiveCacheTransactionImpl" where
  "live_get t now cacheKey =
     (let cacheValue = Map_get (transactionalCache t) cacheKey
      in case cacheValue of
           None \<Rightarrow> (None, t)
         | Some a \<Rightarrow>
             (cacheValue,
              t\<lparr>live_cacheEntryState :=
                  Map_set cacheKey
                    \<lparr>state_retained_lru = True, state_retained_ttl = live_ttlPolicy t,
                     state_lastAccessed = Some now\<rparr>
                    (live_cacheEntryState t)\<rparr>))"










text \<open>A primary store into which a commit has put the entity \<^verbatim>\<open>{score: NaN}\<close>, object 0
  of the heap.\<close>

abbreviation NaN_primary :: "string TxCacheImpl" where
  "NaN_primary \<equiv>
     commitTransaction (\<lambda>es. es) (tx_buildCache None None)
       [(''k'', 0, Some \<lparr>state_retained_lru = True, state_retained_ttl = 60000,
                         state_lastAccessed = Some 1\<rparr>)] []"



section \<open>The reachable states of the cache of cache.ts\<close>




section \<open>Notions used to state the claims\<close>

text \<open>The JSON round trip of a value, when it gives one.\<close>

definition json_roundtrip :: "jsval \<Rightarrow> jsval option" where
  "json_roundtrip v =
     (case JSON_stringify v of Throws \<Rightarrow> None | NoText \<Rightarrow> None | Text j \<Rightarrow> Some (JSON_parse j))"

definition in_heap :: "heap \<Rightarrow> addr option \<Rightarrow> bool" where
  "in_heap h x = (case x of None \<Rightarrow> True | Some a \<Rightarrow> a < length h)"

definition cloneable_all :: "heap \<Rightarrow> 'k yielded list \<Rightarrow> bool" where
  "cloneable_all h es = (\<forall>(k, x, st) \<in> set es. json_roundtrip (js_value h x) \<noteq> None)"

text \<open>What the structured clone algorithm of the platform copies: every value of the
  model that holds no function. It keeps undefined properties and non-finite numbers.\<close>

fun structured_cloneable :: "jsval \<Rightarrow> bool"
  and structured_cloneable_elements :: "jsval list \<Rightarrow> bool"
  and structured_cloneable_properties :: "(string \<times> jsval) list \<Rightarrow> bool" where
  "structured_cloneable (JFun f) = False"
| "structured_cloneable JUndefined = True"
| "structured_cloneable JNull = True"
| "structured_cloneable (JBool b) = True"
| "structured_cloneable (JNum n) = True"
| "structured_cloneable JNaN = True"
| "structured_cloneable (JStr s) = True"
| "structured_cloneable (JArr vs) = structured_cloneable_elements vs"
| "structured_cloneable (JObj ps) = structured_cloneable_properties ps"
| "structured_cloneable_elements [] = True"
| "structured_cloneable_elements (v # vs) =
     (structured_cloneable v \<and> structured_cloneable_elements vs)"
| "structured_cloneable_properties [] = True"
| "structured_cloneable_properties ((k, v) # ps) =
     (structured_cloneable v \<and> structured_cloneable_properties ps)"

text \<open>The value a key is reachable with: the content of what \<^verbatim>\<open>get\<close> returns.\<close>

definition get_content :: "'k CacheImpl \<Rightarrow> heap \<Rightarrow> 'k \<Rightarrow> jsval option" where
  "get_content c h k =
     (case get c h k of Inr (Some a) \<Rightarrow> content h a | Inr None \<Rightarrow> None | Inl e \<Rightarrow> None)"

section \<open>Lemmas about the Map\<close>

lemma Map_get_Map_set: "Map_get (Map_set k v m) k' = (if k' = k then Some v else Map_get m k')"
  by (induction m) auto




lemma Map_set_fresh: "k \<notin> set (map fst m) \<Longrightarrow> Map_set k v m = m @ [(k, v)]"
  by (induction m) auto

section \<open>Lemmas about load\<close>

lemma weakCache_load_other:
  "k \<notin> fst ` set es \<Longrightarrow> Map_get (weakCache (load c es)) k = Map_get (weakCache c) k"
  by (induction c es rule: load.induct) (auto simp: Map_get_Map_set)

lemma lru_load_other:
  "k \<notin> fst ` set es \<Longrightarrow> Map_get (lru (load c es)) k = Map_get (lru c) k"
  by (induction c es rule: load.induct) (auto simp: Map_get_Map_set)

lemma load_fresh:
  "distinct (map fst es) \<Longrightarrow> set (map fst es) \<inter> set (map fst (lru c)) = {} \<Longrightarrow>
   lru (load c es) = lru c @ map (\<lambda>(k, a, st). (k, a)) es"
proof (induction es arbitrary: c)
  case Nil
  then show ?case by simp
next
  case (Cons e es)
  obtain k a st where e: "e = (k, a, st)" by (cases e)
  have fresh: "k \<notin> set (map fst (lru c))" using Cons.prems e by auto
  let ?c = "c\<lparr>weakCache := Map_set k (WeakRef a) (weakCache c), lru := Map_set k a (lru c)\<rparr>"
  have "set (map fst es) \<inter> set (map fst (lru ?c)) = {}"
    using Cons.prems e by (auto simp: Map_set_fresh[OF fresh])
  moreover have "distinct (map fst es)" using Cons.prems by simp
  ultimately have "lru (load ?c es) = lru ?c @ map (\<lambda>(k, a, st). (k, a)) es"
    by (rule Cons.IH[rotated])
  then show ?case by (simp add: e Map_set_fresh[OF fresh])
qed

lemma load_ignores_state: "load c (map (\<lambda>(k, a, st). (k, a, None)) es) = load c es"
  by (induction c es rule: load.induct) auto

section \<open>Lemmas about iteration and save\<close>

lemma js_value_append: "in_heap h x \<Longrightarrow> js_value (h @ h2) x = js_value h x"
  by (auto simp: js_value_def in_heap_def content_def nth_append split: option.splits)

lemma in_heap_append: "in_heap h x \<Longrightarrow> in_heap (h @ h2) x"
  by (auto simp: in_heap_def split: option.splits)

lemma structuredClone_eq:
  "structuredClone h x =
     (case json_roundtrip (js_value h x) of None \<Rightarrow> Inl NotStructuredCloneable
      | Some v \<Rightarrow> Inr (length h, h @ [Some v]))"
  by (simp add: structuredClone_def json_roundtrip_def alloc_def split: stringified.splits)

lemma save_loop_closed:
  "\<forall>(k, x, st) \<in> set es. in_heap h x \<Longrightarrow>
   save_loop h es acc =
     (if cloneable_all h es
      then Inr (acc @ map (\<lambda>((k, x, st), a). (k, a, st)) (zip es [length h..<length h + length es]),
                h @ map (\<lambda>(k, x, st). json_roundtrip (js_value h x)) es)
      else Inl NotStructuredCloneable)"
proof (induction es arbitrary: h acc)
  case Nil
  then show ?case by (simp add: cloneable_all_def)
next
  case (Cons e es)
  obtain k x st where e: "e = (k, x, st)" by (cases e)
  have hx: "in_heap h x" using Cons.prems e by auto
  show ?case
  proof (cases "json_roundtrip (js_value h x)")
    case None
    then show ?thesis by (simp add: e structuredClone_eq cloneable_all_def)
  next
    case (Some v)
    let ?h = "h @ [Some v]"
    have rest: "\<forall>(k, x, st) \<in> set es. in_heap ?h x"
      using Cons.prems by (auto intro: in_heap_append)
    have same: "js_value ?h x' = js_value h x'" if "(k', x', st') \<in> set es" for k' x' st'
      using Cons.prems that by (auto intro: js_value_append)
    have ca: "cloneable_all ?h es = cloneable_all h es"
      unfolding cloneable_all_def using same by fastforce
    have mp: "map (\<lambda>(k, x, st). json_roundtrip (js_value ?h x)) es
            = map (\<lambda>(k, x, st). json_roundtrip (js_value h x)) es"
      by (rule map_cong) (auto simp: same)
    have upt: "[length h..<Suc (length h + length es)]
             = length h # [Suc (length h)..<Suc (length h + length es)]"
      by (rule upt_conv_Cons) simp
    have cc: "cloneable_all h ((k, x, st) # es) = cloneable_all h es"
      using Some by (simp add: cloneable_all_def)
    show ?thesis
      using Cons.IH[OF rest, of "acc @ [(k, length h, st)]"] Some
      by (simp add: e structuredClone_eq ca mp upt cc del: upt_Suc)
  qed
qed


lemma deref_in_heap: "in_heap h (deref h r)"
  by (cases r) (auto simp: in_heap_def live_def content_def split: if_splits)


lemma entries_in_heap: "\<forall>(k, x, st) \<in> set (entries c h). in_heap h x"
proof -
  have "in_heap h (case Map_get (weakCache c) k of None \<Rightarrow> None | Some r \<Rightarrow> deref h r)" for k
    by (cases "Map_get (weakCache c) k") (simp add: in_heap_def, simp add: deref_in_heap)
  then show ?thesis by (auto simp: entries_def asyncIterator_def)
qed

lemma save_closed:
  "save c h =
     (if cloneable_all h (entries c h)
      then Inr (map (\<lambda>((k, x, st), a). (k, a, st))
                  (zip (entries c h) [length h..<length h + length (entries c h)]),
                h @ map (\<lambda>(k, x, st). json_roundtrip (js_value h x)) (entries c h))
      else Inl NotStructuredCloneable)"
  unfolding save_def using save_loop_closed[OF entries_in_heap[of c h], where acc = "[]"] by simp


lemma save_states:
  assumes "save c h = Inr (ts, h')" and "(k, cl, st) \<in> set ts"
  shows "\<exists>x. (k, x, st) \<in> set (entries c h)"
proof -
  have "ts = map (\<lambda>((k, x, st), a). (k, a, st))
               (zip (entries c h) [length h..<length h + length (entries c h)])"
    using assms(1) by (auto simp: save_closed split: if_splits)
  then obtain e a where "(e, a) \<in> set (zip (entries c h) [length h..<length h + length (entries c h)])"
    and "(k, cl, st) = (\<lambda>((k, x, st), a). (k, a, st)) (e, a)"
    using assms(2) by auto
  then show ?thesis by (cases e) (auto dest: set_zip_leftD)
qed

section \<open>Lemmas about the later cache\<close>











lemma Map_get_None_iff: "Map_get m k = None \<longleftrightarrow> k \<notin> set (map fst m)"
  by (induction m) (force simp: image_iff split: if_splits)+





text \<open>The later \<^verbatim>\<open>LruCacheImpl.set\<close> puts the key at the tail and keeps the size within
  a positive \<^verbatim>\<open>#max\<close>.\<close>

lemma keys_Map_delete: "map fst (Map_delete k m) = remove1 k (map fst m)"
  by (induction m) auto

lemma length_Map_delete:
  "k \<in> set (map fst m) \<Longrightarrow> Suc (length (Map_delete k m)) = length m"
  by (induction m) (force simp: image_iff)+

lemma Map_delete_keys_sub:
  assumes "distinct (map fst m)"
  shows "set (map fst (Map_delete k' m)) \<subseteq> set (map fst m) - {k'}
       \<and> distinct (map fst (Map_delete k' m))"
  using assms by (simp only: keys_Map_delete set_remove1_eq distinct_remove1) simp

lemma Map_has_iff: "Map_has m k \<longleftrightarrow> k \<in> set (map fst m)"
  by (simp add: Map_has_def Map_get_None_iff)

lemma LruCacheImpl_set_tail:
  assumes "distinct (map fst (lruCache l))"
  shows "\<exists>m'. lruCache (LruCacheImpl_set k v l) = m' @ [(k, v)]
            \<and> set (map fst m') \<subseteq> set (map fst (lruCache l)) - {k}
            \<and> distinct (map fst m')"
proof -
  let ?m = "lruCache l"
  let ?m' = "if Map_has ?m k then Map_delete k ?m
             else if int (length ?m) = lru_max l
                  then (case ?m of [] \<Rightarrow> ?m | (lruEntryKey, _) # _ \<Rightarrow> Map_delete lruEntryKey ?m)
                  else ?m"
  have sub: "set (map fst ?m') \<subseteq> set (map fst ?m) - {k}" and d: "distinct (map fst ?m')"
  proof -
    show "set (map fst ?m') \<subseteq> set (map fst ?m) - {k}"
    proof (cases "Map_has ?m k")
      case True
      then show ?thesis using Map_delete_keys_sub[OF assms, of k] by simp
    next
      case False
      then have nk: "k \<notin> set (map fst ?m)" by (simp add: Map_has_iff)
      show ?thesis
      proof (cases ?m)
        case Nil
        then show ?thesis using False by simp
      next
        case (Cons x xs)
        obtain k0 v0 where x: "x = (k0, v0)" by (cases x)
        have "set (map fst (Map_delete k0 ?m)) \<subseteq> set (map fst ?m)"
          using Map_delete_keys_sub[OF assms, of k0] by blast
        then show ?thesis using False nk Cons x by auto
      qed
    qed
    show "distinct (map fst ?m')"
    proof (cases ?m)
      case Nil
      then show ?thesis by (simp add: Map_has_def)
    next
      case (Cons x xs)
      obtain k0 v0 where x: "x = (k0, v0)" by (cases x)
      show ?thesis
        using Map_delete_keys_sub[OF assms, of k] Map_delete_keys_sub[OF assms, of k0] assms
        by (simp add: Cons x)
    qed
  qed
  then have "k \<notin> set (map fst ?m')" by blast
  then have "Map_set k v ?m' = ?m' @ [(k, v)]" by (rule Map_set_fresh)
  then have "lruCache (LruCacheImpl_set k v l) = ?m' @ [(k, v)]"
    by (simp add: LruCacheImpl_set_def Let_def)
  then show ?thesis using sub d by blast
qed

lemma LruCacheImpl_set_bounded:
  assumes "distinct (map fst (lruCache l))" and "0 < lru_max l"
    and "int (length (lruCache l)) \<le> lru_max l"
  shows "int (length (lruCache (LruCacheImpl_set k v l))) \<le> lru_max l"
proof (cases "k \<in> set (map fst (lruCache l))")
  case True
  then have "Map_has (lruCache l) k" by (simp add: Map_has_iff)
  moreover have "k \<notin> set (map fst (Map_delete k (lruCache l)))"
    using assms(1) by (simp add: keys_Map_delete)
  ultimately show ?thesis
    using assms(3) length_Map_delete[OF True]
    by (simp add: LruCacheImpl_set_def Let_def Map_set_fresh)
next
  case False
  then have nh: "\<not> Map_has (lruCache l) k" by (simp add: Map_has_iff)
  show ?thesis
  proof (cases "int (length (lruCache l)) = lru_max l")
    case True
    then obtain k0 v0 m where m: "lruCache l = (k0, v0) # m"
      using assms(2) by (cases "lruCache l") auto
    have "k \<notin> set (map fst m)" using False m by simp
    then show ?thesis using nh True m
      by (simp add: LruCacheImpl_set_def Let_def Map_set_fresh)
  next
    case False
    then show ?thesis using nh assms(3) \<open>k \<notin> set (map fst (lruCache l))\<close>
      by (simp add: LruCacheImpl_set_def Let_def Map_set_fresh)
  qed
qed

lemmas tx_eval =
  tx_load_def tx_buildCache_def policy_def DEFAULT_EXPIRATION_lru_def DEFAULT_EXPIRATION_ttl_def
  DEFAULT_ENTRY_STATE_def tx_structuredClone_def js_value_def alloc_def content_def live_def
  LruCacheImpl_set_def Map_has_def beginTransaction_def beginLiveTransaction_def tx_entries_def
  spread_object_def JSON_stringify_def
  tx_entryRevisionsOf_def live_get_def commitTransaction_def reclaim_def tx_get_def Let_def


text \<open>The later cache has \<^verbatim>\<open>clear\<close>. Its \<^verbatim>\<open>save\<close> and its \<^verbatim>\<open>load\<close> clone with the same
  JSON helper: after \<^verbatim>\<open>s = save(); clear(); load(s)\<close> the key that held \<^verbatim>\<open>{score: NaN}\<close>
  holds \<^verbatim>\<open>{score: null}\<close>.\<close>

lemma tx_save_clear_load:
  "tx_get NaN_primary [Some (JObj [(''score'', JNaN)])] ''k'' = Some 0
   \<and> tx_save NaN_primary [Some (JObj [(''score'', JNaN)])]
       = Inr ([(''k'', 1, Some \<lparr>state_retained_lru = True, state_retained_ttl = 60000,
                                 state_lastAccessed = Some 1\<rparr>)],
              [Some (JObj [(''score'', JNaN)]), Some (JObj [(''score'', JNull)])])
   \<and> tx_weakCache (fst (tx_clear NaN_primary
                           [Some (JObj [(''score'', JNaN)]), Some (JObj [(''score'', JNull)])])) = []
   \<and> (\<exists>c h. tx_load (fst (tx_clear NaN_primary
                               [Some (JObj [(''score'', JNaN)]), Some (JObj [(''score'', JNull)])]))
               [Some (JObj [(''score'', JNaN)]), Some (JObj [(''score'', JNull)])]
               [(''k'', 1, Some \<lparr>state_retained_lru = True, state_retained_ttl = 60000,
                                 state_lastAccessed = Some 1\<rparr>)] = (c, h, None)
            \<and> tx_get c h ''k'' = Some 2
            \<and> content h 2 = Some (JObj [(''score'', JNull)]))"
  by (simp add: tx_eval tx_save_def tx_clear_def)

section \<open>Lemmas about the reachable states of the cache of cache.ts\<close>










section \<open>Claims\<close>

text \<open>
  C2 to C10 are about \<^verbatim>\<open>CacheImpl\<close> of \<^verbatim>\<open>packages/cache/src/cache.ts\<close>; C1 is about the
  transactions of the later cache. The operations are asynchronous; each is modelled as
  one step, with no other operation running between its iterations. A Map has each key
  once: the theorem of C1, which is about every state of the primary store, assumes that
  the keys of the weak map are distinct.
\<close>






text \<open>
  C2. The claim: the LRU tier never holds more than the configured capacity, 10000 by
  default. \<^verbatim>\<open>#lru\<close> is a plain Map (``TODO: impl lru correctly'') and \<^verbatim>\<open>load\<close> only
  calls \<^verbatim>\<open>set\<close> on it: loading 10001 entries with distinct keys into a new cache leaves
  10001 entries in the LRU tier. (The later \<^verbatim>\<open>LruCacheImpl\<close> keeps the bound:
  \<open>LruCacheImpl_set_bounded\<close>.)
\<close>

theorem lru_exceeds_default_capacity:
  "length (lru (load buildCache (map (\<lambda>i. (i, 0, None)) [0..<10001]))) = 10001"
proof -
  let ?es = "map (\<lambda>i. (i, 0::addr, None :: CacheEntryState option)) [0..<10001]"
  have k: "map fst ?es = [0..<10001]" by (simp add: comp_def)
  have "lru (load buildCache ?es) = lru buildCache @ map (\<lambda>(k, a, st). (k, a)) ?es"
    by (rule load_fresh) (simp_all only: k distinct_upt, simp add: buildCache_def)
  then show ?thesis by (simp add: buildCache_def)
qed

text \<open>
  C3. The claim: \<^verbatim>\<open>load\<close> deep-clones each value, so that a later mutation of the
  object the caller passed does not change what \<^verbatim>\<open>get\<close> returns. The clone is commented
  out in \<^verbatim>\<open>load\<close> (\<^verbatim>\<open>let clone = value\<close>): \<^verbatim>\<open>get\<close> returns the caller's own object, here
  object 0, and after the caller renames it from ``a'' to ``b'' the object that \<^verbatim>\<open>get\<close>
  returns holds ``b''.
\<close>

theorem load_keeps_callers_object:
  "get (load buildCache [(''u:1'', 0, None)]) [Some (JObj [(''name'', JStr ''a'')])] ''u:1''
     = Inr (Some 0)
   \<and> get (load buildCache [(''u:1'', 0, None)])
         (mutate [Some (JObj [(''name'', JStr ''a'')])] 0 (JObj [(''name'', JStr ''b'')])) ''u:1''
     = Inr (Some 0)
   \<and> content (mutate [Some (JObj [(''name'', JStr ''a'')])] 0 (JObj [(''name'', JStr ''b'')])) 0
     = Some (JObj [(''name'', JStr ''b'')])"
  by (simp add: buildCache_def get_def live_def content_def mutate_def)


text \<open>
  C4. The claim: the clone in each tuple of \<^verbatim>\<open>save\<close> is structurally equal to the
  stored entity, and \<^verbatim>\<open>save\<close> fails exactly when some value cannot be deeply copied; the
  doc comment of \<^verbatim>\<open>save\<close> says that the values are copied via \<^verbatim>\<open>structuredClone\<close> and
  that \<^verbatim>\<open>save\<close> throws for an entry that is not structured clonable, ``e.g. a
  function''. An entity with a function-valued property \<^verbatim>\<open>f\<close> cannot be copied by the
  structured clone algorithm; \<^verbatim>\<open>save\<close> of a cache that holds \<^verbatim>\<open>{f: function, n: 1}\<close>
  does not throw and returns the clone \<^verbatim>\<open>{n: 1}\<close>, which is not structurally equal to
  the entity, whatever the function does.
\<close>

theorem save_drops_function_property:
  "\<not> structured_cloneable (JObj [(''f'', JFun r), (''n'', JNum 1)])
   \<and> save (load buildCache [(''k'', 0, None)]) [Some (JObj [(''f'', JFun r), (''n'', JNum 1)])]
     = Inr ([(''k'', 1, None)],
            [Some (JObj [(''f'', JFun r), (''n'', JNum 1)]), Some (JObj [(''n'', JNum 1)])])"
  by (simp add: save_def entries_def asyncIterator_def buildCache_def structuredClone_def
        JSON_stringify_def js_value_def content_def live_def alloc_def)

text \<open>
  C5. The claim: for a cache whose values are all structured-cloneable,
  \<^verbatim>\<open>s = save(); clear(); load(s)\<close> leaves every reachable (key, value) pair structurally
  equal. The entity \<^verbatim>\<open>{score: NaN}\<close> is structured-cloneable, and the structured clone
  algorithm that the doc comment of \<^verbatim>\<open>save\<close> refers to keeps \<^verbatim>\<open>NaN\<close>. In a cache that
  holds it under the key ``k'', \<^verbatim>\<open>save\<close> returns the clone \<^verbatim>\<open>{score: null}\<close>; cache.ts
  has no \<^verbatim>\<open>clear\<close>, and in whatever state \<open>c'\<close> the cache is when \<^verbatim>\<open>load\<close> is given
  what \<^verbatim>\<open>save\<close> returned, the key then holds \<^verbatim>\<open>{score: null}\<close>. (For the later cache,
  which has \<^verbatim>\<open>clear\<close>, see \<open>tx_save_clear_load\<close>.)
\<close>

theorem roundtrip_turns_NaN_into_null:
  "structured_cloneable (JObj [(''score'', JNaN)])
   \<and> get_content (load buildCache [(''k'', 0, None)]) [Some (JObj [(''score'', JNaN)])] ''k''
       = Some (JObj [(''score'', JNaN)])
   \<and> save (load buildCache [(''k'', 0, None)]) [Some (JObj [(''score'', JNaN)])]
       = Inr ([(''k'', 1, None)],
              [Some (JObj [(''score'', JNaN)]), Some (JObj [(''score'', JNull)])])
   \<and> get_content (load c' [(''k'', 1, None)])
         [Some (JObj [(''score'', JNaN)]), Some (JObj [(''score'', JNull)])] ''k''
       = Some (JObj [(''score'', JNull)])"
  by (simp add: save_def entries_def asyncIterator_def buildCache_def structuredClone_def
        JSON_stringify_def js_value_def content_def live_def alloc_def get_content_def get_def
        Map_get_Map_set)

text \<open>
  C6. For every key, \<^verbatim>\<open>get\<close> never throws; it looks the key up in the primary store and
  resolves the weak reference: the result is the referent when the key is present and the
  referent is live, and undefined when the key is absent or the referent is reclaimed.
\<close>

theorem get_resolves_weak_reference:
  "(\<exists>r. get c h k = Inr r) \<and>
   (Map_get (weakCache c) k = None \<longrightarrow> get c h k = Inr None) \<and>
   (\<forall>a. Map_get (weakCache c) k = Some (WeakRef a) \<longrightarrow>
      get c h k = Inr (if live h a then Some a else None))"
  by (simp add: get_def)

theorem get_resolves_weak_reference_witness:
  "get (load buildCache [(''u:1'', 0, None), (''u:2'', 1, None)]) [Some (JObj []), None] ''u:1''
     = Inr (Some 0) \<and>
   get (load buildCache [(''u:1'', 0, None), (''u:2'', 1, None)]) [Some (JObj []), None] ''u:2''
     = Inr None \<and>
   get (load buildCache [(''u:1'', 0, None), (''u:2'', 1, None)]) [Some (JObj []), None] ''u:3''
     = Inr None"
  using get_resolves_weak_reference
    [of "load buildCache [(''u:1'', 0, None), (''u:2'', 1, None)]" "[Some (JObj []), None]" "''u:1''"]
    get_resolves_weak_reference
    [of "load buildCache [(''u:1'', 0, None), (''u:2'', 1, None)]" "[Some (JObj []), None]" "''u:2''"]
    get_resolves_weak_reference
    [of "load buildCache [(''u:1'', 0, None), (''u:2'', 1, None)]" "[Some (JObj []), None]" "''u:3''"]
  by (simp add: buildCache_def live_def content_def)




text \<open>
  C8. The claim: inserting into the LRU tier under a key that is present moves the key to
  the tail, so that iteration of the tier yields it last. \<^verbatim>\<open>#lru.set\<close> is the \<^verbatim>\<open>set\<close> of a
  plain Map, which keeps a present key where it is: after loading ``a'', ``b'' and ``a''
  again the tier iterates ``a'' first and ``b'' last. (The later \<^verbatim>\<open>LruCacheImpl.set\<close>
  does move the key to the tail: \<open>LruCacheImpl_set_tail\<close>.)
\<close>

theorem lru_reinsert_keeps_position:
  "map fst (lru (load buildCache [(''a'', 0, None), (''b'', 1, None), (''a'', 2, None)]))
     = [''a'', ''b'']
   \<and> last (map fst (lru (load buildCache [(''a'', 0, None), (''b'', 1, None), (''a'', 2, None)])))
     \<noteq> ''a''"
  by (simp add: buildCache_def)

text \<open>
  C9. For every entry list \<open>E\<close> and every key \<open>k\<close> that does not occur in \<open>E\<close>,
  \<^verbatim>\<open>load(E)\<close> leaves the primary-store entry and the LRU entry of \<open>k\<close> as they were,
  and so what \<^verbatim>\<open>get\<close> returns for \<open>k\<close>.
\<close>

theorem load_keeps_other_keys:
  assumes "k \<notin> fst ` set E"
  shows "Map_get (weakCache (load c E)) k = Map_get (weakCache c) k
       \<and> Map_get (lru (load c E)) k = Map_get (lru c) k
       \<and> get (load c E) h k = get c h k"
  using assms by (simp add: weakCache_load_other lru_load_other get_def)

theorem load_keeps_other_keys_witness:
  "Map_get (weakCache (load (load buildCache [(''a'', 0, None)]) [(''b'', 1, None), (''c'', 2, None)])) ''a''
     = Some (WeakRef 0)
   \<and> Map_get (lru (load (load buildCache [(''a'', 0, None)]) [(''b'', 1, None), (''c'', 2, None)])) ''a''
     = Some 0"
  using load_keeps_other_keys
    [of "''a''" "[(''b'', 1, None), (''c'', 2, None)]" "load buildCache [(''a'', 0, None)]" "[]"]
  by (simp add: buildCache_def)

text \<open>
  C10. Every tuple that the async iterator and \<^verbatim>\<open>entries()\<close> yield, and every tuple that
  \<^verbatim>\<open>save\<close> returns, has an undefined state; \<^verbatim>\<open>load\<close> does not read the state of the entries
  it is given, and the cache has no field that could hold one.
\<close>

theorem iteration_state_is_undefined:
  "(\<forall>(k, x, st) \<in> set (asyncIterator c h). st = None)
   \<and> (\<forall>(k, x, st) \<in> set (entries c h). st = None)
   \<and> (\<forall>ts h'. save c h = Inr (ts, h') \<longrightarrow> (\<forall>(k, cl, st) \<in> set ts. st = None))
   \<and> load c (map (\<lambda>(k, a, st). (k, a, None)) es) = load c es"
proof -
  have a: "\<forall>(k, x, st) \<in> set (asyncIterator c h). st = None"
    by (auto simp: asyncIterator_def)
  then have e: "\<forall>(k, x, st) \<in> set (entries c h). st = None"
    by (simp add: entries_def)
  have "\<forall>(k, cl, st) \<in> set ts. st = None" if "save c h = Inr (ts, h')" for ts h'
    using save_states[OF that] e by fastforce
  then show ?thesis using a e load_ignores_state by blast
qed

theorem iteration_state_is_undefined_witness:
  "entries (load buildCache [(''k'', 0, Some \<lparr>retained_lru = True, retained_ttl = 60000, lastAccessed = 5\<rparr>)])
      [Some (JObj [])] = [(''k'', Some 0, None)]
   \<and> save (load buildCache [(''k'', 0, Some \<lparr>retained_lru = True, retained_ttl = 60000, lastAccessed = 5\<rparr>)])
      [Some (JObj [])] = Inr ([(''k'', 1, None)], [Some (JObj []), Some (JObj [])])"
  using iteration_state_is_undefined
    [of "load buildCache [(''k'', 0, Some \<lparr>retained_lru = True, retained_ttl = 60000, lastAccessed = 5\<rparr>)]"
        "[Some (JObj [])]" "[]"]
  by (simp add: save_def entries_def asyncIterator_def buildCache_def structuredClone_def
        JSON_stringify_def js_value_def content_def live_def alloc_def)

end
